theory Spec2Isabelle
  imports Complex_Main "HOL-Library.Char_ord" "HOL-Library.List_Lexorder"
    "HOL-Library.Product_Lexorder"
begin

section \<open>The autocomplete extractor (src/v3\_extractor.py)\<close>

text \<open>
  A shallow embedding of class \<open>AutocompleteExtractor\<close>. The object is a record that
  every method takes and returns. What the methods read from outside the object (the
  remote service, the clock, the iteration order of a Python set, the JSON library, the
  file system) is a second record, \<open>world\<close>, passed to them.

  Conventions of the model:
  \<^item> a Python \<open>str\<close> is a \<open>string\<close>, and one-character strings are compared as
    Python compares them, by character code (\<open>HOL-Library.Char_ord\<close>); characters are
    the 8-bit characters of HOL;
  \<^item> a Python \<open>float\<close> is a \<open>real\<close>: products and quotients are exact, the rounding of
    IEEE doubles is not modelled;
  \<^item> \<open>time.sleep\<close>, logging, HTTP sessions and locks change nothing of the object and
    are left out, and so are the fields that no method modelled here reads
    (\<open>base_url\<close>, \<open>max_workers\<close>, \<open>active_threads\<close>, \<open>start_time\<close>,
    \<open>last_status_time\<close>); one thread runs at a time;
  \<^item> the two counters of \<open>rate_limit_counters\<close> are the fields \<open>rate_limit_success\<close>
    and \<open>rate_limit_failure\<close>; they start at 0 and are only incremented or set to a
    constant, so they are natural numbers;
  \<^item> \<open>prefix_queue\<close> (a \<open>queue.PriorityQueue\<close> of pairs) is the list of its items in
    the order they were put; \<open>get\<close> takes the least pair out;
  \<^item> the file named by \<open>self.checkpoint_file\<close> is the field \<open>checkpoint_file\<close>, which
    holds what the file holds (\<open>None\<close>: no such file);
  \<^item> a leading underscore is no Isabelle name: \<open>_adjust_delay\<close>, \<open>_save_checkpoint\<close> and
    \<open>_load_checkpoint\<close> are \<open>adjust_delay\<close>, \<open>save_checkpoint\<close>, \<open>load_checkpoint\<close>.
\<close>

subsection \<open>Data\<close>

text \<open>Keys of \<open>prefix_length_stats\<close>: integers in memory, strings once read back from JSON.\<close>

datatype stat_key = IntKey nat | StrKey string

text \<open>One entry of \<open>prefix_length_stats\<close>: the pair (\<open>"success"\<close>, \<open>"queries"\<close>).\<close>

type_synonym length_stats = "stat_key \<rightharpoonup> (nat \<times> nat)"

record checkpoint =
  cp_discovered_names :: "string list"
  cp_explored_prefixes :: "string list"
  cp_request_count :: int
  cp_timestamp :: real
  cp_prefix_length_stats :: length_stats

record extractor =
  max_results :: int
  checkpoint_interval :: int
  discovered_names :: "string set"
  request_count :: int
  explored_prefixes :: "string set"
  prefix_queue :: "(int \<times> string) list"
  adaptive_delay :: real
  max_adaptive_delay :: real
  min_adaptive_delay :: real
  rate_limit_success :: nat
  rate_limit_failure :: nat
  checkpoint_file :: "checkpoint option"
  charset :: string
  special_charset :: string
  full_charset :: string
  last_checkpoint_time :: real
  prefix_length_stats :: length_stats

text \<open>The body of a 200 response, as \<open>response.json()\<close> gives it or fails to.\<close>

datatype body =
    Results "string list"  \<comment> \<open>an object whose \<open>"results"\<close> is a list\<close>
  | Unexpected             \<comment> \<open>any other JSON value\<close>
  | JsonRequestError       \<comment> \<open>\<open>json()\<close> raises a \<open>RequestException\<close>\<close>
  | JsonOtherError         \<comment> \<open>\<open>json()\<close> raises another exception\<close>

text \<open>What one call of \<open>session.get\<close> does.\<close>

datatype outcome =
    Response int body      \<comment> \<open>status code and body\<close>
  | RequestException       \<comment> \<open>\<open>requests.exceptions.RequestException\<close>\<close>
  | OtherException         \<comment> \<open>any other exception\<close>

record world =
  attempt :: "nat \<Rightarrow> outcome"      \<comment> \<open>the request made at \<open>retry_count = k\<close>\<close>
  time_now :: "nat \<Rightarrow> real"        \<comment> \<open>\<open>time.time()\<close> read after that request\<close>
  write_ok :: "nat \<Rightarrow> bool"        \<comment> \<open>whether a checkpoint written then reaches the file\<close>
  listing :: "string set \<Rightarrow> string list"  \<comment> \<open>the order in which a set is iterated\<close>
  json_stats :: "length_stats \<Rightarrow> length_stats"  \<comment> \<open>a dictionary written to JSON and read back\<close>

datatype error = IndexError

subsection \<open>The constructor\<close>

definition digits :: string where
  "digits = ''0123456789''"

definition ascii_lowercase :: string where
  "ascii_lowercase = ''abcdefghijklmnopqrstuvwxyz''"

text \<open>\<open>string.punctuation\<close> without the backslash and the two quotes.\<close>

definition punctuation_used :: string where
  "punctuation_used = ''!#$%&()*+,-./:;<=>?@[]^_`{|}~''"

definition init :: "int \<Rightarrow> real \<Rightarrow> int \<Rightarrow> real \<Rightarrow> checkpoint option \<Rightarrow> extractor" where
  "init max_results' rate_limit_delay checkpoint_interval' now file =
     \<lparr> max_results = max_results',
       checkpoint_interval = checkpoint_interval',
       discovered_names = {},
       request_count = 0,
       explored_prefixes = {},
       prefix_queue = [],
       adaptive_delay = rate_limit_delay,
       max_adaptive_delay = 3.0,
       min_adaptive_delay = 0.8,
       rate_limit_success = 0,
       rate_limit_failure = 0,
       checkpoint_file = file,
       charset = digits @ ascii_lowercase,
       special_charset = punctuation_used,
       full_charset = (digits @ ascii_lowercase) @ punctuation_used,
       last_checkpoint_time = now,
       prefix_length_stats = Map.empty \<rparr>"

subsection \<open>The rate controller\<close>

definition adjust_delay :: "bool \<Rightarrow> extractor \<Rightarrow> extractor" where
  "adjust_delay success s =
     (if success then
        (let success_ratio =
               real (rate_limit_success s) /
               real (max 1 (rate_limit_success s + rate_limit_failure s))
         in if success_ratio > 0.85 \<and> rate_limit_success s > 30
            then s\<lparr> adaptive_delay := max (min_adaptive_delay s) (adaptive_delay s * 0.97),
                    rate_limit_success := 15,
                    rate_limit_failure := 2 \<rparr>
            else s)
      else s\<lparr> adaptive_delay := min (max_adaptive_delay s) (adaptive_delay s * 1.5),
              rate_limit_success := 0 \<rparr>)"

text \<open>
  A report to the controller, as \<open>get_autocomplete_suggestions\<close> makes it: the counter
  is incremented, then \<open>_adjust_delay\<close> is called (lines 102-111 and 157-159).
\<close>

definition report_failure :: "extractor \<Rightarrow> extractor" where
  "report_failure s =
     adjust_delay False (s\<lparr> rate_limit_failure := rate_limit_failure s + 1 \<rparr>)"

definition report_success :: "extractor \<Rightarrow> extractor" where
  "report_success s =
     adjust_delay True (s\<lparr> rate_limit_success := rate_limit_success s + 1 \<rparr>)"

fun reports :: "bool list \<Rightarrow> extractor \<Rightarrow> extractor" where
  "reports [] s = s"
| "reports (b # bs) s = reports bs (if b then report_success s else report_failure s)"

subsection \<open>Checkpoints\<close>

definition save_checkpoint :: "world \<Rightarrow> bool \<Rightarrow> real \<Rightarrow> extractor \<Rightarrow> bool \<times> extractor" where
  "save_checkpoint w ok now s =
     (if ok then
        (True, s\<lparr> checkpoint_file := Some
           \<lparr> cp_discovered_names = listing w (discovered_names s),
             cp_explored_prefixes = listing w (explored_prefixes s),
             cp_request_count = request_count s,
             cp_timestamp = now,
             cp_prefix_length_stats = prefix_length_stats s \<rparr> \<rparr>)
      else (False, s))"

text \<open>The dictionary \<open>prefix_by_length\<close> of \<open>_load_checkpoint\<close>, and its sorted keys.\<close>

definition prefix_by_length :: "string list \<Rightarrow> nat \<Rightarrow> string list" where
  "prefix_by_length ps n = filter (\<lambda>p. length p = n) ps"

definition sorted_lengths :: "string list \<Rightarrow> nat list" where
  "sorted_lengths ps = sort (remdups (map length ps))"

definition requeue :: "string \<Rightarrow> string set \<Rightarrow> string list \<Rightarrow> (int \<times> string) list" where
  "requeue cs explored ps =
     concat (map (\<lambda>prefix_len.
       concat (map (\<lambda>prefix.
         map (\<lambda>c. (int prefix_len + 1, prefix @ [c]))
           (filter (\<lambda>c. prefix @ [c] \<notin> explored) cs))
         (prefix_by_length ps prefix_len)))
       (sorted_lengths ps))"

definition load_checkpoint :: "world \<Rightarrow> extractor \<Rightarrow> bool \<times> extractor" where
  "load_checkpoint w s =
     (case checkpoint_file s of
        None \<Rightarrow> (False, s)
      | Some checkpoint_data \<Rightarrow>
          (let s1 = s\<lparr> discovered_names := set (cp_discovered_names checkpoint_data),
                      explored_prefixes := set (cp_explored_prefixes checkpoint_data),
                      request_count := cp_request_count checkpoint_data,
                      prefix_length_stats :=
                        json_stats w (cp_prefix_length_stats checkpoint_data) \<rparr>
           in (True, s1\<lparr> prefix_queue := prefix_queue s1 @
                 requeue (charset s1) (explored_prefixes s1)
                   (listing w (explored_prefixes s1)) \<rparr>)))"

subsection \<open>The fetch\<close>

text \<open>
  Lines 91-97: the request is counted and a checkpoint is saved when due. A
  \<open>checkpoint_interval\<close> of 0 raises \<open>ZeroDivisionError\<close> after the request was
  counted: the flag returned is then \<open>False\<close>, and the caller's handler for any
  exception returns the empty list. The timestamp of the checkpoint is taken to be the
  time just read.
\<close>

definition count_request :: "world \<Rightarrow> nat \<Rightarrow> extractor \<Rightarrow> extractor \<times> bool" where
  "count_request w k s =
     (let s1 = s\<lparr> request_count := request_count s + 1 \<rparr>;
          current_time = time_now w k
      in if checkpoint_interval s1 = 0 then (s1, False)
         else if request_count s1 mod checkpoint_interval s1 = 0
                 \<or> current_time - last_checkpoint_time s1 > 300
         then ((snd (save_checkpoint w (write_ok w k) current_time s1))
                 \<lparr> last_checkpoint_time := current_time \<rparr>, True)
         else (s1, True))"

definition record_stats :: "nat \<Rightarrow> string list \<Rightarrow> extractor \<Rightarrow> extractor" where
  "record_stats prefix_len suggestions s =
     (let old = (case prefix_length_stats s (IntKey prefix_len) of
                   None \<Rightarrow> (0, 0) | Some v \<Rightarrow> v)
      in s\<lparr> prefix_length_stats := (prefix_length_stats s)(IntKey prefix_len \<mapsto>
              (if length suggestions > 0 then fst old + 1 else fst old, snd old + 1)) \<rparr>)"

function get_autocomplete_suggestions ::
  "world \<Rightarrow> extractor \<Rightarrow> string \<Rightarrow> nat \<Rightarrow> nat \<Rightarrow> string list \<times> extractor" where
  "get_autocomplete_suggestions w s query retry_count max_retries =
     (case attempt w retry_count of
        RequestException \<Rightarrow>
          (if retry_count < max_retries
           then get_autocomplete_suggestions w s query (retry_count + 1) max_retries
           else ([], s))
      | OtherException \<Rightarrow> ([], s)
      | Response status_code data \<Rightarrow>
          (case count_request w retry_count s of
             (s1, False) \<Rightarrow> ([], s1)
           | (s1, True) \<Rightarrow>
               if status_code = 429 then
                 (let s2 = report_failure s1
                  in if retry_count < max_retries
                     then get_autocomplete_suggestions w s2 query (retry_count + 1) max_retries
                     else ([], s2))
               else if status_code \<noteq> 200 then
                 (if status_code \<ge> 500 \<and> retry_count < max_retries
                  then get_autocomplete_suggestions w s1 query (retry_count + 1) max_retries
                  else ([], s1))
               else
                 (case data of
                    Results suggestions \<Rightarrow>
                      (suggestions, report_success (record_stats (length query) suggestions s1))
                  | Unexpected \<Rightarrow> ([], s1)
                  | JsonRequestError \<Rightarrow>
                      (if retry_count < max_retries
                       then get_autocomplete_suggestions w s1 query (retry_count + 1) max_retries
                       else ([], s1))
                  | JsonOtherError \<Rightarrow> ([], s1))))"
  by pat_completeness auto
termination
  by (relation "measure (\<lambda>(w, s, query, retry_count, max_retries). max_retries - retry_count)")
     auto

declare get_autocomplete_suggestions.simps [simp del]

subsection \<open>The expansion step\<close>

text \<open>
  Lines 350-392 of \<open>explore_prefix\<close>: what it does with the suggestions once fetched.
  \<open>suggestions[-1]\<close> on an empty list raises \<open>IndexError\<close>.
\<close>

definition priority_boost :: "extractor \<Rightarrow> char \<Rightarrow> int" where
  "priority_boost s c = (if c \<in> set (charset s) then 5 else 10)"

definition expand :: "extractor \<Rightarrow> string \<Rightarrow> string list \<Rightarrow> error option \<times> extractor" where
  "expand s prefix suggestions =
     (let s1 = s\<lparr> discovered_names := discovered_names s \<union> set suggestions \<rparr>
      in if int (length suggestions) = max_results s1 then
           (if suggestions = [] then (Some IndexError, s1)
            else
              (let last_result = last suggestions;
                   prefix_len = length prefix
               in if prefix_len < length last_result then
                    (let next_char = last_result ! prefix_len;
                         next_prefix = prefix @ [next_char]
                     in (None, s1\<lparr> prefix_queue := prefix_queue s1 @
                           (if next_prefix \<notin> explored_prefixes s1
                            then [(int prefix_len, next_prefix)] else []) @
                           map (\<lambda>c. (int prefix_len + priority_boost s1 c, prefix @ [c]))
                             (filter (\<lambda>c. c > next_char \<and> prefix @ [c] \<notin> explored_prefixes s1)
                                (full_charset s1)) \<rparr>))
                  else
                    (None, s1\<lparr> prefix_queue := prefix_queue s1 @
                       map (\<lambda>c. (int prefix_len + priority_boost s1 c, prefix @ [c]))
                         (filter (\<lambda>c. prefix @ [c] \<notin> explored_prefixes s1)
                            (full_charset s1)) \<rparr>)))
         else (None, s1))"

definition explore_prefix :: "world \<Rightarrow> extractor \<Rightarrow> string \<Rightarrow> error option \<times> extractor" where
  "explore_prefix w s prefix =
     (case get_autocomplete_suggestions w s prefix 0 8 of
        (suggestions, s1) \<Rightarrow> expand s1 prefix suggestions)"

subsection \<open>The worker\<close>

text \<open>\<open>PriorityQueue.get\<close>: the least item leaves the queue; \<open>None\<close> is \<open>queue.Empty\<close>.\<close>

definition queue_get :: "(int \<times> string) list \<Rightarrow> ((int \<times> string) \<times> (int \<times> string) list) option" where
  "queue_get q = (if q = [] then None else Some (Min (set q), remove1 (Min (set q)) q))"

text \<open>
  One turn of the \<open>while True\<close> loop of \<open>worker\<close> (lines 298-336); \<open>None\<close> is the
  \<open>break\<close>. An exception of \<open>explore_prefix\<close> is caught and logged, and the prefix is
  then not marked as explored.
\<close>

definition worker_iteration :: "world \<Rightarrow> extractor \<Rightarrow> extractor option" where
  "worker_iteration w s =
     (case queue_get (prefix_queue s) of
        None \<Rightarrow> None
      | Some ((priority, prefix), rest) \<Rightarrow>
          (let s1 = s\<lparr> prefix_queue := rest \<rparr>
           in if prefix \<in> explored_prefixes s1 then Some s1
              else (case explore_prefix w s1 prefix of
                      (None, s2) \<Rightarrow>
                        Some (s2\<lparr> explored_prefixes := insert prefix (explored_prefixes s2) \<rparr>)
                    | (Some e, s2) \<Rightarrow> Some s2)))"

subsection \<open>Notions used in the statements\<close>

text \<open>What a fetch leaves alone: the crawl state proper and the configuration.\<close>

definition crawl_frame :: "extractor \<Rightarrow> extractor \<Rightarrow> bool" where
  "crawl_frame s s' \<longleftrightarrow>
     max_results s' = max_results s \<and> checkpoint_interval s' = checkpoint_interval s \<and>
     discovered_names s' = discovered_names s \<and> explored_prefixes s' = explored_prefixes s \<and>
     prefix_queue s' = prefix_queue s \<and> charset s' = charset s \<and>
     special_charset s' = special_charset s \<and> full_charset s' = full_charset s"

text \<open>The delay lies between the two bounds that the constructor fixes.\<close>

definition delay_in_range :: "extractor \<Rightarrow> bool" where
  "delay_in_range s \<longleftrightarrow>
     min_adaptive_delay s = 0.8 \<and> max_adaptive_delay s = 3 \<and>
     min_adaptive_delay s \<le> adaptive_delay s \<and> adaptive_delay s \<le> max_adaptive_delay s"

text \<open>What the controller holds: the delay and the two counters.\<close>

definition controller :: "extractor \<Rightarrow> real \<times> nat \<times> nat" where
  "controller s = (adaptive_delay s, rate_limit_success s, rate_limit_failure s)"

text \<open>The outcomes that make the fetch try again: a 429, a server error, a network error.\<close>

fun failed :: "outcome \<Rightarrow> bool" where
  "failed (Response status_code data) = (status_code = 429 \<or> status_code \<ge> 500)"
| "failed RequestException = True"
| "failed OtherException = False"

text \<open>
  The order of a configured charset, in the words of the specification (digits before
  letters before punctuation): \<open>a\<close> stands before \<open>b\<close> in the list.
\<close>

fun charset_less :: "char \<Rightarrow> char \<Rightarrow> string \<Rightarrow> bool" where
  "charset_less a b [] = False"
| "charset_less a b (x # xs) =
     (if x = a then b \<in> set xs else if x = b then False else charset_less a b xs)"

text \<open>The world lists a set completely and without repetition, as Python does.\<close>

definition enumerates :: "world \<Rightarrow> string set \<Rightarrow> bool" where
  "enumerates w S \<longleftrightarrow> set (listing w S) = S \<and> distinct (listing w S)"

text \<open>
  A world for the examples: the service answers the attempts with the given outcomes
  in turn and repeats the last one, the clock stands at 0, every write succeeds, a set
  is listed in ascending order.
\<close>

definition service :: "outcome list \<Rightarrow> world" where
  "service outcomes =
     \<lparr> attempt = (\<lambda>k. if k < length outcomes then outcomes ! k else last outcomes),
       time_now = (\<lambda>k. 0),
       write_ok = (\<lambda>k. True),
       listing = sorted_list_of_set,
       json_stats = (\<lambda>stats. stats) \<rparr>"

section \<open>The rate controller\<close>

lemma adjust_delay_limits:
  "min_adaptive_delay (adjust_delay b s) = min_adaptive_delay s"
  "max_adaptive_delay (adjust_delay b s) = max_adaptive_delay s"
  by (simp_all add: adjust_delay_def Let_def)

lemma adjust_delay_bounds:
  assumes "0 \<le> min_adaptive_delay s" "min_adaptive_delay s \<le> max_adaptive_delay s"
    and "min_adaptive_delay s \<le> adaptive_delay s" "adaptive_delay s \<le> max_adaptive_delay s"
  shows "min_adaptive_delay s \<le> adaptive_delay (adjust_delay b s)
       \<and> adaptive_delay (adjust_delay b s) \<le> max_adaptive_delay s"
proof (cases b)
  case True
  have "adaptive_delay s * 0.97 \<le> adaptive_delay s"
    using assms by simp
  with assms True show ?thesis
    by (simp add: adjust_delay_def Let_def)
next
  case False
  have "adaptive_delay s \<le> adaptive_delay s * 1.5"
    using assms by simp
  with assms False show ?thesis
    by (simp add: adjust_delay_def Let_def)
qed

lemma report_failure_in_range: "delay_in_range s \<Longrightarrow> delay_in_range (report_failure s)"
  using adjust_delay_bounds [of "s\<lparr>rate_limit_failure := rate_limit_failure s + 1\<rparr>" False]
  by (simp add: delay_in_range_def report_failure_def adjust_delay_limits)

lemma report_success_in_range: "delay_in_range s \<Longrightarrow> delay_in_range (report_success s)"
  using adjust_delay_bounds [of "s\<lparr>rate_limit_success := rate_limit_success s + 1\<rparr>" True]
  by (simp add: delay_in_range_def report_success_def adjust_delay_limits)

lemma reports_in_range: "delay_in_range s \<Longrightarrow> delay_in_range (reports bs s)"
  by (induction bs arbitrary: s) (simp_all add: report_failure_in_range report_success_in_range)

text \<open>
  Claim C5, as amended. The claim lets the extractor be constructed with any
  \<open>rate_limit_delay\<close>, and the constructor copies that value into the delay unclamped.
  What holds: when the extractor is constructed with a \<open>rate_limit_delay\<close> between 0.8 and
  3.0 (the minimum and maximum delay the constructor fixes), then after every sequence
  of success and failure reports the adaptive delay lies between \<open>min_adaptive_delay\<close>
  and \<open>max_adaptive_delay\<close>, which are still 0.8 and 3.0. Every initial part of a
  sequence is a sequence, so this holds at all times.
\<close>

theorem delay_bounds:
  assumes "0.8 \<le> rate_limit_delay" and "rate_limit_delay \<le> 3"
  shows "min_adaptive_delay (reports bs (init m rate_limit_delay ci now file))
           \<le> adaptive_delay (reports bs (init m rate_limit_delay ci now file))
       \<and> adaptive_delay (reports bs (init m rate_limit_delay ci now file))
           \<le> max_adaptive_delay (reports bs (init m rate_limit_delay ci now file))
       \<and> min_adaptive_delay (reports bs (init m rate_limit_delay ci now file)) = 0.8
       \<and> max_adaptive_delay (reports bs (init m rate_limit_delay ci now file)) = 3"
proof -
  have "delay_in_range (init m rate_limit_delay ci now file)"
    using assms by (simp add: delay_in_range_def init_def)
  then have "delay_in_range (reports bs (init m rate_limit_delay ci now file))"
    by (rule reports_in_range)
  then show ?thesis
    by (simp add: delay_in_range_def)
qed

text \<open>Three failures from the default delay 1.0 reach the maximum; a success keeps it.\<close>

theorem delay_bounds_witness:
  "(0.8::real) \<le> 1 \<and> (1::real) \<le> 3
   \<and> adaptive_delay (reports [False, False, False, True] (init 100 1 200 0 None)) = 3
   \<and> min_adaptive_delay (reports [False, False, False, True] (init 100 1 200 0 None))
        \<le> adaptive_delay (reports [False, False, False, True] (init 100 1 200 0 None))
   \<and> adaptive_delay (reports [False, False, False, True] (init 100 1 200 0 None))
        \<le> max_adaptive_delay (reports [False, False, False, True] (init 100 1 200 0 None))"
  using delay_bounds [of 1 "[False, False, False, True]" 100 200 0 None]
  by (simp add: init_def report_failure_def report_success_def adjust_delay_def)

text \<open>
  The claim as stated fails: constructed with \<open>rate_limit_delay = 0.1\<close>, the extractor
  has the delay 0.15 after one failure report, below the minimum 0.8.
\<close>

theorem delay_bounds_counterexample:
  "adaptive_delay (reports [False] (init 100 0.1 200 0 None))
     < min_adaptive_delay (reports [False] (init 100 0.1 200 0 None))"
  by (simp add: init_def report_failure_def adjust_delay_def)

text \<open>
  Claim C8. The update rule of \<open>_adjust_delay\<close>: on a failure the delay becomes
  \<open>min(maxDelay, delay * 1.5)\<close> and the success counter is reset to 0, nothing else
  changes; on a success, if the success ratio \<open>success / (success + failure)\<close> exceeds
  0.85 and more than 30 successes are counted, the delay becomes
  \<open>max(minDelay, delay * 0.97)\<close> and the counters are reset to 15 successes and 2
  failures; on any other success nothing changes.
\<close>

theorem adjust_delay_rule:
  "adjust_delay False s =
     s\<lparr> adaptive_delay := min (max_adaptive_delay s) (adaptive_delay s * 1.5),
        rate_limit_success := 0 \<rparr>
   \<and> adjust_delay True s =
     (if real (rate_limit_success s) / real (rate_limit_success s + rate_limit_failure s) > 0.85
         \<and> rate_limit_success s > 30
      then s\<lparr> adaptive_delay := max (min_adaptive_delay s) (adaptive_delay s * 0.97),
              rate_limit_success := 15, rate_limit_failure := 2 \<rparr>
      else s)"
proof -
  have "max 1 (rate_limit_success s + rate_limit_failure s)
          = rate_limit_success s + rate_limit_failure s" if "rate_limit_success s > 30"
    using that by simp
  then show ?thesis
    by (auto simp: adjust_delay_def Let_def)
qed

section \<open>The fetch\<close>

lemma crawl_frame_refl: "crawl_frame s s"
  by (simp add: crawl_frame_def)

lemma crawl_frame_trans: "crawl_frame s s1 \<Longrightarrow> crawl_frame s1 s2 \<Longrightarrow> crawl_frame s s2"
  by (simp add: crawl_frame_def)

lemma report_failure_frame: "crawl_frame s (report_failure s)"
  by (simp add: crawl_frame_def report_failure_def adjust_delay_def)

lemma report_success_frame: "crawl_frame s (report_success s)"
  by (simp add: crawl_frame_def report_success_def adjust_delay_def Let_def)

lemma record_stats_frame: "crawl_frame s (record_stats n xs s)"
  by (simp add: crawl_frame_def record_stats_def Let_def)

lemma count_request_frame: "crawl_frame s (fst (count_request w k s))"
  by (simp add: crawl_frame_def count_request_def save_checkpoint_def Let_def)

lemma get_frame:
  "crawl_frame s (snd (get_autocomplete_suggestions w s query retry_count max_retries))"
proof (induction "max_retries - retry_count" arbitrary: s retry_count)
  case 0
  then have stop: "\<not> retry_count < max_retries" by simp
  have a: "crawl_frame s (report_failure (fst (count_request w retry_count s)))"
    using count_request_frame report_failure_frame crawl_frame_trans by blast
  have b: "crawl_frame s (report_success (record_stats n xs (fst (count_request w retry_count s))))"
    for n xs
    using count_request_frame report_success_frame record_stats_frame crawl_frame_trans by blast
  have c: "count_request w retry_count s = (s1, ok) \<Longrightarrow> s1 = fst (count_request w retry_count s)"
    for s1 ok by simp
  show ?case
    by (subst get_autocomplete_suggestions.simps)
       (auto simp: stop Let_def crawl_frame_refl count_request_frame a b dest!: c
             split: outcome.splits body.splits prod.splits bool.splits)
next
  case (Suc n)
  from Suc.hyps(2) have "n = max_retries - Suc retry_count" and go: "retry_count < max_retries"
    by simp_all
  then have IH: "crawl_frame s' (snd (get_autocomplete_suggestions w s' query (Suc retry_count) max_retries))"
    for s'
    using Suc.hyps(1) by simp
  have t: "crawl_frame s s' \<Longrightarrow>
      crawl_frame s (snd (get_autocomplete_suggestions w s' query (Suc retry_count) max_retries))"
    for s'
    using IH crawl_frame_trans by blast
  have a: "crawl_frame s (report_failure (fst (count_request w retry_count s)))"
    using count_request_frame report_failure_frame crawl_frame_trans by blast
  have b: "crawl_frame s (report_success (record_stats n xs (fst (count_request w retry_count s))))"
    for n xs
    using count_request_frame report_success_frame record_stats_frame crawl_frame_trans by blast
  have c: "count_request w retry_count s = (s1, ok) \<Longrightarrow> s1 = fst (count_request w retry_count s)"
    for s1 ok by simp
  show ?case
    by (subst get_autocomplete_suggestions.simps)
       (auto simp: go Let_def crawl_frame_refl count_request_frame a b t IH dest!: c
             split: outcome.splits body.splits prod.splits bool.splits)
qed

lemma count_request_ok: "checkpoint_interval s \<noteq> 0 \<Longrightarrow> snd (count_request w k s)"
  by (simp add: count_request_def Let_def)

lemma count_request_controller:
  "controller (fst (count_request w k s)) = controller s"
  "max_adaptive_delay (fst (count_request w k s)) = max_adaptive_delay s"
  "min_adaptive_delay (fst (count_request w k s)) = min_adaptive_delay s"
  by (simp_all add: count_request_def save_checkpoint_def controller_def Let_def)

lemma report_failure_controller:
  "controller s' = controller s \<Longrightarrow> max_adaptive_delay s' = max_adaptive_delay s \<Longrightarrow>
   controller (report_failure s') = controller (report_failure s)"
  by (simp add: controller_def report_failure_def adjust_delay_def)

lemma report_success_controller:
  "controller s' = controller s \<Longrightarrow> min_adaptive_delay s' = min_adaptive_delay s \<Longrightarrow>
   controller (report_success s') = controller (report_success s)"
  by (simp add: controller_def report_success_def adjust_delay_def Let_def)

lemma record_stats_controller:
  "controller (record_stats n xs s) = controller s"
  "min_adaptive_delay (record_stats n xs s) = min_adaptive_delay s"
  by (simp_all add: controller_def record_stats_def Let_def)

lemma get_unfold:
  assumes "checkpoint_interval s \<noteq> 0"
  shows "get_autocomplete_suggestions w s query k max_retries =
     (case attempt w k of
        RequestException \<Rightarrow>
          (if k < max_retries
           then get_autocomplete_suggestions w s query (Suc k) max_retries else ([], s))
      | OtherException \<Rightarrow> ([], s)
      | Response status_code data \<Rightarrow>
          if status_code = 429 then
            (if k < max_retries
             then get_autocomplete_suggestions w (report_failure (fst (count_request w k s)))
                    query (Suc k) max_retries
             else ([], report_failure (fst (count_request w k s))))
          else if status_code \<noteq> 200 then
            (if status_code \<ge> 500 \<and> k < max_retries
             then get_autocomplete_suggestions w (fst (count_request w k s)) query (Suc k) max_retries
             else ([], fst (count_request w k s)))
          else
            (case data of
               Results suggestions \<Rightarrow>
                 (suggestions,
                  report_success (record_stats (length query) suggestions (fst (count_request w k s))))
             | Unexpected \<Rightarrow> ([], fst (count_request w k s))
             | JsonRequestError \<Rightarrow>
                 (if k < max_retries
                  then get_autocomplete_suggestions w (fst (count_request w k s)) query (Suc k) max_retries
                  else ([], fst (count_request w k s)))
             | JsonOtherError \<Rightarrow> ([], fst (count_request w k s))))"
proof -
  obtain s1 where s1: "count_request w k s = (s1, True)"
    using count_request_ok [OF assms, of w k] by (cases "count_request w k s") simp
  show ?thesis
    by (subst get_autocomplete_suggestions.simps)
       (simp add: s1 Let_def split: outcome.splits body.splits)
qed

text \<open>
  Claim C6, as amended. Only a 429 is reported as a failure. What holds, for an
  extractor whose \<open>checkpoint_interval\<close> is not 0 and for each attempt of a fetch: a 429
  response causes exactly one failure report (the failure counter grows by one, the
  delay becomes \<open>min(maxDelay, delay * 1.5)\<close>, the success counter is reset) before the
  retry or the return; a server error (a status of 500 or more) and a network error
  cause no report, the controller is left as it was; a 200 response with a
  well-formed body ends the fetch with exactly one success report.
\<close>

theorem report_per_occurrence:
  assumes "checkpoint_interval s \<noteq> 0"
  shows "(attempt w k = Response 429 data \<longrightarrow>
           get_autocomplete_suggestions w s query k max_retries =
             (if k < max_retries
              then get_autocomplete_suggestions w (report_failure (fst (count_request w k s)))
                     query (Suc k) max_retries
              else ([], report_failure (fst (count_request w k s))))
           \<and> controller (report_failure (fst (count_request w k s))) =
               (min (max_adaptive_delay s) (adaptive_delay s * 1.5), 0, rate_limit_failure s + 1))
       \<and> (attempt w k = Response status_code data \<and> status_code \<ge> 500 \<longrightarrow>
           get_autocomplete_suggestions w s query k max_retries =
             (if k < max_retries
              then get_autocomplete_suggestions w (fst (count_request w k s)) query (Suc k) max_retries
              else ([], fst (count_request w k s)))
           \<and> controller (fst (count_request w k s)) = controller s)
       \<and> (attempt w k = RequestException \<longrightarrow>
           get_autocomplete_suggestions w s query k max_retries =
             (if k < max_retries
              then get_autocomplete_suggestions w s query (Suc k) max_retries
              else ([], s)))
       \<and> (attempt w k = Response 200 (Results suggestions) \<longrightarrow>
           get_autocomplete_suggestions w s query k max_retries =
             (suggestions,
              report_success (record_stats (length query) suggestions (fst (count_request w k s))))
           \<and> controller (report_success
                 (record_stats (length query) suggestions (fst (count_request w k s)))) =
               controller (report_success s))"
proof (intro conjI impI)
  assume "attempt w k = Response 429 data"
  then show "get_autocomplete_suggestions w s query k max_retries =
             (if k < max_retries
              then get_autocomplete_suggestions w (report_failure (fst (count_request w k s)))
                     query (Suc k) max_retries
              else ([], report_failure (fst (count_request w k s))))"
    by (simp add: get_unfold [OF assms])
next
  have "controller (report_failure (fst (count_request w k s))) = controller (report_failure s)"
    by (rule report_failure_controller) (rule count_request_controller)+
  then show "controller (report_failure (fst (count_request w k s))) =
               (min (max_adaptive_delay s) (adaptive_delay s * 1.5), 0, rate_limit_failure s + 1)"
    by (simp add: controller_def report_failure_def adjust_delay_def)
next
  assume "attempt w k = Response status_code data \<and> status_code \<ge> 500"
  then show "get_autocomplete_suggestions w s query k max_retries =
             (if k < max_retries
              then get_autocomplete_suggestions w (fst (count_request w k s)) query (Suc k) max_retries
              else ([], fst (count_request w k s)))"
    by (simp add: get_unfold [OF assms])
next
  show "controller (fst (count_request w k s)) = controller s"
    by (rule count_request_controller)
next
  assume "attempt w k = RequestException"
  then show "get_autocomplete_suggestions w s query k max_retries =
             (if k < max_retries
              then get_autocomplete_suggestions w s query (Suc k) max_retries
              else ([], s))"
    by (simp add: get_unfold [OF assms])
next
  assume "attempt w k = Response 200 (Results suggestions)"
  then show "get_autocomplete_suggestions w s query k max_retries =
             (suggestions,
              report_success (record_stats (length query) suggestions (fst (count_request w k s))))"
    by (simp add: get_unfold [OF assms])
next
  show "controller (report_success
                 (record_stats (length query) suggestions (fst (count_request w k s)))) =
               controller (report_success s)"
    by (rule report_success_controller)
       (simp_all add: record_stats_controller count_request_controller)
qed

text \<open>A 429, a 503, a network error, then the page.\<close>

theorem report_per_occurrence_witness:
  "checkpoint_interval (init 100 1 200 0 None) \<noteq> 0
   \<and> attempt (service [Response 429 Unexpected, Response 503 Unexpected, RequestException,
        Response 200 (Results [''q''])]) 0 = Response 429 Unexpected
   \<and> attempt (service [Response 429 Unexpected, Response 503 Unexpected, RequestException,
        Response 200 (Results [''q''])]) 1 = Response 503 Unexpected \<and> (503::int) \<ge> 500
   \<and> attempt (service [Response 429 Unexpected, Response 503 Unexpected, RequestException,
        Response 200 (Results [''q''])]) 2 = RequestException
   \<and> attempt (service [Response 429 Unexpected, Response 503 Unexpected, RequestException,
        Response 200 (Results [''q''])]) 3 = Response 200 (Results [''q''])
   \<and> controller (report_failure (fst (count_request
        (service [Response 429 Unexpected, Response 503 Unexpected, RequestException,
           Response 200 (Results [''q''])]) 0 (init 100 1 200 0 None)))) = (1.5, 0, 1)
   \<and> controller (fst (count_request
        (service [Response 429 Unexpected, Response 503 Unexpected, RequestException,
           Response 200 (Results [''q''])]) 1 (init 100 1 200 0 None))) = (1, 0, 0)
   \<and> get_autocomplete_suggestions
        (service [Response 429 Unexpected, Response 503 Unexpected, RequestException,
           Response 200 (Results [''q''])]) (init 100 1 200 0 None) ''q'' 3 8 =
       ([''q''], report_success (record_stats 1 [''q''] (fst (count_request
          (service [Response 429 Unexpected, Response 503 Unexpected, RequestException,
             Response 200 (Results [''q''])]) 3 (init 100 1 200 0 None)))))"
proof -
  let ?w = "service [Response 429 Unexpected, Response 503 Unexpected, RequestException,
        Response 200 (Results [''q''])]"
  let ?s = "init 100 1 200 0 None"
  have c: "checkpoint_interval ?s \<noteq> 0" by (simp add: init_def)
  have a0: "attempt ?w 0 = Response 429 Unexpected" by (simp add: service_def)
  have a1: "attempt ?w 1 = Response 503 Unexpected" by (simp add: service_def)
  have a2: "attempt ?w 2 = RequestException" by (simp add: service_def)
  have a3: "attempt ?w 3 = Response 200 (Results [''q''])" by (simp add: service_def)
  show ?thesis
    using c a0 a1 a2 a3
      report_per_occurrence [OF c, of ?w 0 Unexpected "''q''" 8 503 "[]"]
      report_per_occurrence [OF c, of ?w 1 Unexpected "''q''" 8 503 "[]"]
      report_per_occurrence [OF c, of ?w 3 Unexpected "''q''" 8 503 "[''q'']"]
    by (simp add: controller_def init_def)
qed


text \<open>
  The claim as stated fails: when the service answers 500 to all nine attempts, the
  failure counter is still 0 and the delay is still 1.0 at the end of the fetch.
\<close>

theorem report_per_occurrence_counterexample:
  "attempt (service [Response 500 Unexpected]) 0 = Response 500 Unexpected
   \<and> fst (get_autocomplete_suggestions (service [Response 500 Unexpected])
            (init 100 1 200 0 None) ''ab'' 0 8) = []
   \<and> request_count (snd (get_autocomplete_suggestions (service [Response 500 Unexpected])
            (init 100 1 200 0 None) ''ab'' 0 8)) = 9
   \<and> rate_limit_failure (snd (get_autocomplete_suggestions (service [Response 500 Unexpected])
            (init 100 1 200 0 None) ''ab'' 0 8)) = 0
   \<and> adaptive_delay (snd (get_autocomplete_suggestions (service [Response 500 Unexpected])
            (init 100 1 200 0 None) ''ab'' 0 8)) = 1"
  by (simp add: get_autocomplete_suggestions.simps service_def count_request_def init_def)

lemma failed_at_last:
  assumes "failed (attempt w retry_count)" and "\<not> retry_count < max_retries"
  shows "fst (get_autocomplete_suggestions w s query retry_count max_retries) = []"
  using assms
  by (subst get_autocomplete_suggestions.simps)
     (auto simp: Let_def split: outcome.splits body.splits prod.splits bool.splits)

lemma failed_retries:
  assumes "failed (attempt w retry_count)" and "retry_count < max_retries"
  shows "\<exists>s'. get_autocomplete_suggestions w s query retry_count max_retries =
           get_autocomplete_suggestions w s' query (Suc retry_count) max_retries
         \<or> fst (get_autocomplete_suggestions w s query retry_count max_retries) = []"
  using assms
  by (subst (1 3) get_autocomplete_suggestions.simps)
     (auto simp: Let_def split: outcome.splits body.splits prod.splits bool.splits)

text \<open>
  Claim C7. When every attempt of a query, from the first to the one made at the
  maximum retry count, meets a 429, a server error or a network error,
  \<open>get_autocomplete_suggestions\<close> returns the empty list. It raises nothing: each
  exception of the body is caught by one of its two handlers, so the function of the
  model is total and its result is a list.
\<close>

theorem retries_exhausted_empty:
  assumes "\<forall>k. retry_count \<le> k \<and> k \<le> max_retries \<longrightarrow> failed (attempt w k)"
    and "retry_count \<le> max_retries"
  shows "fst (get_autocomplete_suggestions w s query retry_count max_retries) = []"
  using assms
proof (induction "max_retries - retry_count" arbitrary: s retry_count)
  case 0
  then show ?case by (simp add: failed_at_last)
next
  case (Suc n)
  from Suc.hyps(2) have n: "n = max_retries - Suc retry_count" and go: "retry_count < max_retries"
    by simp_all
  have "failed (attempt w retry_count)"
    using Suc.prems by simp
  from failed_retries [OF this go, of s query]
  obtain s' where "get_autocomplete_suggestions w s query retry_count max_retries =
           get_autocomplete_suggestions w s' query (Suc retry_count) max_retries
         \<or> fst (get_autocomplete_suggestions w s query retry_count max_retries) = []"
    by blast
  moreover have "fst (get_autocomplete_suggestions w s' query (Suc retry_count) max_retries) = []"
    using Suc.hyps(1) [OF n] Suc.prems go by simp
  ultimately show ?case by auto
qed

text \<open>A 429, then a network error, then 503 for good: nine attempts, no names.\<close>

theorem retries_exhausted_empty_witness:
  "list_all
     (\<lambda>k. failed (attempt (service [Response 429 Unexpected, RequestException, Response 503 Unexpected]) k))
     [0, 1, 2, 3, 4, 5, 6, 7, 8]
   \<and> (0::nat) \<le> 8
   \<and> fst (get_autocomplete_suggestions
        (service [Response 429 Unexpected, RequestException, Response 503 Unexpected])
        (init 100 1 200 0 None) ''ab'' 0 8) = []"
proof -
  have h: "\<forall>k. 0 \<le> k \<and> k \<le> 8 \<longrightarrow>
      failed (attempt (service [Response 429 Unexpected, RequestException, Response 503 Unexpected]) k)"
    by (simp add: service_def nth_Cons split: nat.splits)
  show ?thesis
    using h retries_exhausted_empty [OF h, of "init 100 1 200 0 None" "''ab''"] by simp
qed

section \<open>The expansion step\<close>

lemma expand_other_size:
  assumes "int (length page) \<noteq> max_results s"
  shows "expand s prefix page = (None, s\<lparr> discovered_names := discovered_names s \<union> set page \<rparr>)"
  using assms by (simp add: expand_def)

lemma explore_prefix_expand:
  "explore_prefix w s prefix =
     expand (snd (get_autocomplete_suggestions w s prefix 0 8)) prefix
       (fst (get_autocomplete_suggestions w s prefix 0 8))"
  by (simp add: explore_prefix_def split: prod.splits)

lemma page_fetched:
  "checkpoint_interval s \<noteq> 0 \<Longrightarrow>
   fst (get_autocomplete_suggestions (service [Response 200 (Results page)]) s query 0 8) = page"
  by (simp add: get_autocomplete_suggestions.simps service_def count_request_def Let_def)

text \<open>
  Claim C2. When the page fetched for a prefix holds strictly fewer than \<open>max_results\<close>
  items, \<open>explore_prefix\<close> records every returned suggestion as a discovered name and
  enqueues no child prefix.
\<close>

theorem incomplete_page_no_children:
  assumes "fst (get_autocomplete_suggestions w s prefix 0 8) = page"
    and "int (length page) < max_results s"
  shows "fst (explore_prefix w s prefix) = None
       \<and> discovered_names (snd (explore_prefix w s prefix)) = discovered_names s \<union> set page
       \<and> prefix_queue (snd (explore_prefix w s prefix)) = prefix_queue s"
  using assms get_frame [of s w prefix 0 8]
  by (simp add: explore_prefix_expand expand_other_size crawl_frame_def)

theorem incomplete_page_no_children_witness:
  "fst (get_autocomplete_suggestions (service [Response 200 (Results [''z''])])
         (init 2 1 200 0 None) ''z'' 0 8) = [''z'']
   \<and> int (length [''z'']) < max_results (init 2 1 200 0 None)
   \<and> discovered_names (snd (explore_prefix (service [Response 200 (Results [''z''])])
         (init 2 1 200 0 None) ''z'')) = {''z''}
   \<and> prefix_queue (snd (explore_prefix (service [Response 200 (Results [''z''])])
         (init 2 1 200 0 None) ''z'')) = []"
proof -
  have f: "fst (get_autocomplete_suggestions (service [Response 200 (Results [''z''])])
         (init 2 1 200 0 None) ''z'' 0 8) = [''z'']"
    by (simp add: get_autocomplete_suggestions.simps service_def count_request_def init_def)
  have m: "int (length [''z'']) < max_results (init 2 1 200 0 None)"
    by (simp add: init_def)
  show ?thesis
    using f m incomplete_page_no_children [OF f m] by (simp add: init_def)
qed

text \<open>
  Claim C10. When the page holds strictly more than \<open>max_results\<close> items,
  \<open>explore_prefix\<close> records all of them as discovered names and enqueues no child
  prefix: the test of the code is an equality.
\<close>

theorem oversized_page_no_children:
  assumes "fst (get_autocomplete_suggestions w s prefix 0 8) = page"
    and "int (length page) > max_results s"
  shows "fst (explore_prefix w s prefix) = None
       \<and> discovered_names (snd (explore_prefix w s prefix)) = discovered_names s \<union> set page
       \<and> prefix_queue (snd (explore_prefix w s prefix)) = prefix_queue s"
  using assms get_frame [of s w prefix 0 8]
  by (simp add: explore_prefix_expand expand_other_size crawl_frame_def)

theorem oversized_page_no_children_witness:
  "fst (get_autocomplete_suggestions (service [Response 200 (Results [''ab'', ''ac''])])
         (init 1 1 200 0 None) ''a'' 0 8) = [''ab'', ''ac'']
   \<and> int (length [''ab'', ''ac'']) > max_results (init 1 1 200 0 None)
   \<and> discovered_names (snd (explore_prefix (service [Response 200 (Results [''ab'', ''ac''])])
         (init 1 1 200 0 None) ''a'')) = {''ab'', ''ac''}
   \<and> prefix_queue (snd (explore_prefix (service [Response 200 (Results [''ab'', ''ac''])])
         (init 1 1 200 0 None) ''a'')) = []"
proof -
  have f: "fst (get_autocomplete_suggestions (service [Response 200 (Results [''ab'', ''ac''])])
         (init 1 1 200 0 None) ''a'' 0 8) = [''ab'', ''ac'']"
    by (simp add: page_fetched init_def)
  have m: "int (length [''ab'', ''ac'']) > max_results (init 1 1 200 0 None)"
    by (simp add: init_def)
  show ?thesis
    using f m oversized_page_no_children [OF f m] by (simp add: init_def)
qed

text \<open>
  Claim C1, as amended. The siblings are chosen by character code, not by the order of
  the charset, and a child that is already explored is not enqueued. What holds: for a
  prefix \<open>p\<close> and a page of size exactly \<open>max_results\<close> whose last item \<open>lastName\<close> is
  strictly longer than \<open>p\<close>, with the pivot \<open>lastName[len(p)]\<close>, the expansion step
  enqueues, after recording the page, first the pivot child \<open>p + pivot\<close> at priority
  \<open>len(p)\<close> unless it is in ExploredSet, then \<open>p + c\<close> for exactly those characters \<open>c\<close>
  of the full charset whose character code is strictly greater than that of the pivot
  and whose extension is not in ExploredSet, at priority \<open>len(p) + 5\<close> for a digit or a
  letter and \<open>len(p) + 10\<close> otherwise. So the pivot child has a strictly higher
  priority (a smaller number) than every sibling, and no sibling with a character code
  less than or equal to the pivot's is enqueued.
\<close>

theorem pivot_expansion:
  assumes "fst (get_autocomplete_suggestions w s prefix 0 8) = page"
    and "int (length page) = max_results s"
    and "page \<noteq> []"
    and "length prefix < length (last page)"
  shows "fst (explore_prefix w s prefix) = None
       \<and> discovered_names (snd (explore_prefix w s prefix)) = discovered_names s \<union> set page
       \<and> prefix_queue (snd (explore_prefix w s prefix)) =
           prefix_queue s @
           (if prefix @ [last page ! length prefix] \<in> explored_prefixes s then []
            else [(int (length prefix), prefix @ [last page ! length prefix])]) @
           map (\<lambda>c. (int (length prefix) + (if c \<in> set (charset s) then 5 else 10), prefix @ [c]))
             (filter (\<lambda>c. last page ! length prefix < c \<and> prefix @ [c] \<notin> explored_prefixes s)
                (full_charset s))"
  using assms get_frame [of s w prefix 0 8]
  by (simp add: explore_prefix_expand expand_def crawl_frame_def Let_def priority_boost_def)

text \<open>A page that ends in \<open>ax\<close>: the pivot child, two letters, four punctuation marks.\<close>

theorem pivot_expansion_witness:
  "fst (get_autocomplete_suggestions (service [Response 200 (Results [''aa'', ''ax''])])
         (init 2 1 200 0 None) ''a'' 0 8) = [''aa'', ''ax'']
   \<and> int (length [''aa'', ''ax'']) = max_results (init 2 1 200 0 None)
   \<and> [''aa'', ''ax''] \<noteq> []
   \<and> length ''a'' < length (last [''aa'', ''ax''])
   \<and> prefix_queue (snd (explore_prefix (service [Response 200 (Results [''aa'', ''ax''])])
         (init 2 1 200 0 None) ''a'')) =
       [(1, ''ax''), (6, ''ay''), (6, ''az''), (11, ''a{''), (11, ''a|''), (11, ''a}''), (11, ''a~'')]"
proof -
  let ?s = "init 2 1 200 0 None"
  have f: "fst (get_autocomplete_suggestions (service [Response 200 (Results [''aa'', ''ax''])])
         ?s ''a'' 0 8) = [''aa'', ''ax'']"
    by (simp add: page_fetched init_def)
  have m: "int (length [''aa'', ''ax'']) = max_results ?s"
    by (simp add: init_def)
  have n: "[''aa'', ''ax''] \<noteq> []" by simp
  have l: "length ''a'' < length (last [''aa'', ''ax''])" by simp
  show ?thesis
    using f m n l pivot_expansion [OF f m n l]
    by (simp add: init_def digits_def ascii_lowercase_def punctuation_used_def less_char_def)
qed

text \<open>
  The claim as stated fails: with the charset of the constructor, the prefix \<open>a\<close> and the
  full page \<open>["ab"]\<close>, the pivot is \<open>b\<close>; the character \<open>!\<close> stands after \<open>b\<close> in the
  charset order (digits, letters, punctuation), and \<open>a!\<close> is not enqueued.
\<close>

theorem pivot_expansion_counterexample:
  "charset_less CHR ''b'' CHR ''!'' (full_charset (init 1 1 200 0 None))
   \<and> ''a!'' \<notin> snd ` set (prefix_queue (snd (explore_prefix
        (service [Response 200 (Results [''ab''])]) (init 1 1 200 0 None) ''a'')))"
  by (simp add: explore_prefix_expand page_fetched expand_def Let_def priority_boost_def
        get_autocomplete_suggestions.simps service_def count_request_def report_success_def
        record_stats_def adjust_delay_def
        init_def digits_def ascii_lowercase_def punctuation_used_def less_char_def)


text \<open>
  Claim C4, as amended. The children of the fallback do not all get one priority, and
  a child that is already explored is not enqueued. What holds: for a prefix \<open>p\<close> and a
  full page (size equal to \<open>max_results\<close>) whose last item has length exactly \<open>len(p)\<close>,
  the expansion step enqueues \<open>p + c\<close> for every character \<open>c\<close> of the full charset
  whose extension is not in ExploredSet, in charset order, at priority \<open>len(p) + 5\<close>
  when \<open>c\<close> is a digit or a letter (in \<open>charset\<close>) and \<open>len(p) + 10\<close> otherwise, and
  enqueues nothing else.
\<close>

theorem fallback_expansion:
  assumes "fst (get_autocomplete_suggestions w s prefix 0 8) = page"
    and "int (length page) = max_results s"
    and "page \<noteq> []"
    and "length (last page) = length prefix"
  shows "fst (explore_prefix w s prefix) = None
       \<and> discovered_names (snd (explore_prefix w s prefix)) = discovered_names s \<union> set page
       \<and> prefix_queue (snd (explore_prefix w s prefix)) =
           prefix_queue s @
           map (\<lambda>c. (int (length prefix) + (if c \<in> set (charset s) then 5 else 10), prefix @ [c]))
             (filter (\<lambda>c. prefix @ [c] \<notin> explored_prefixes s) (full_charset s))"
  using assms get_frame [of s w prefix 0 8]
  by (simp add: explore_prefix_expand expand_def crawl_frame_def Let_def priority_boost_def)

text \<open>Scenario C with the charset of the constructor: 36 children at 6, 29 at 11.\<close>

theorem fallback_expansion_witness:
  "fst (get_autocomplete_suggestions (service [Response 200 (Results [''q''])])
         (init 1 1 200 0 None) ''q'' 0 8) = [''q'']
   \<and> int (length [''q'']) = max_results (init 1 1 200 0 None)
   \<and> [''q''] \<noteq> []
   \<and> length (last [''q'']) = length ''q''
   \<and> prefix_queue (snd (explore_prefix (service [Response 200 (Results [''q''])])
         (init 1 1 200 0 None) ''q'')) =
       map (\<lambda>c. (6, ''q'' @ [c])) (digits @ ascii_lowercase) @
       map (\<lambda>c. (11, ''q'' @ [c])) punctuation_used"
proof -
  let ?s = "init 1 1 200 0 None"
  have f: "fst (get_autocomplete_suggestions (service [Response 200 (Results [''q''])])
         ?s ''q'' 0 8) = [''q'']"
    by (simp add: page_fetched init_def)
  have m: "int (length [''q'']) = max_results ?s"
    by (simp add: init_def)
  have n: "[''q''] \<noteq> []" by simp
  have l: "length (last [''q'']) = length ''q''" by simp
  show ?thesis
    using f m n l fallback_expansion [OF f m n l]
    by (simp add: init_def digits_def ascii_lowercase_def punctuation_used_def)
qed

text \<open>
  The claim as stated fails: on Scenario C the children \<open>q0\<close> and \<open>q!\<close> are enqueued at
  the priorities 6 and 11.
\<close>

theorem fallback_expansion_counterexample:
  "(6, ''q0'') \<in> set (prefix_queue (snd (explore_prefix
        (service [Response 200 (Results [''q''])]) (init 1 1 200 0 None) ''q'')))
   \<and> (11, ''q!'') \<in> set (prefix_queue (snd (explore_prefix
        (service [Response 200 (Results [''q''])]) (init 1 1 200 0 None) ''q'')))"
  by (simp add: explore_prefix_expand expand_def Let_def priority_boost_def
        get_autocomplete_suggestions.simps service_def count_request_def report_success_def
        record_stats_def adjust_delay_def
        init_def digits_def ascii_lowercase_def punctuation_used_def)

section \<open>The worker\<close>

text \<open>
  Claim C9. When the prefix that a worker takes from the queue is already in
  ExploredSet, the worker discards it without a fetch: the turn leaves the extractor
  as it was but for the item taken out of the queue, so \<open>request_count\<close> does not
  increase. A fetch is made nowhere else, so in a run of one worker no explored prefix
  is fetched again.
\<close>

theorem explored_prefix_discarded:
  assumes "queue_get (prefix_queue s) = Some ((priority, prefix), rest)"
    and "prefix \<in> explored_prefixes s"
  shows "worker_iteration w s = Some (s\<lparr> prefix_queue := rest \<rparr>)
       \<and> request_count (the (worker_iteration w s)) = request_count s"
  using assms by (simp add: worker_iteration_def)

theorem explored_prefix_discarded_witness:
  "queue_get (prefix_queue ((init 100 1 200 0 None)
       \<lparr> explored_prefixes := {''a''}, prefix_queue := [(6, ''ab''), (1, ''a'')] \<rparr>))
     = Some ((1, ''a''), [(6, ''ab'')])
   \<and> ''a'' \<in> explored_prefixes ((init 100 1 200 0 None)
       \<lparr> explored_prefixes := {''a''}, prefix_queue := [(6, ''ab''), (1, ''a'')] \<rparr>)
   \<and> worker_iteration (service [Response 200 (Results [''ab''])])
        ((init 100 1 200 0 None)
           \<lparr> explored_prefixes := {''a''}, prefix_queue := [(6, ''ab''), (1, ''a'')] \<rparr>)
      = Some ((init 100 1 200 0 None)
           \<lparr> explored_prefixes := {''a''}, prefix_queue := [(6, ''ab'')] \<rparr>)"
proof -
  let ?s = "(init 100 1 200 0 None)
       \<lparr> explored_prefixes := {''a''}, prefix_queue := [(6, ''ab''), (1, ''a'')] \<rparr>"
  have q: "queue_get (prefix_queue ?s) = Some ((1, ''a''), [(6, ''ab'')])"
    by (simp add: queue_get_def)
  have e: "''a'' \<in> explored_prefixes ?s" by simp
  show ?thesis
    using q e explored_prefix_discarded [OF q e, of "service [Response 200 (Results [''ab''])]"]
    by simp
qed

section \<open>Checkpoints\<close>

lemma length_requeue:
  "length (requeue cs E ps) =
     (\<Sum>n\<leftarrow>sorted_lengths ps. \<Sum>p\<leftarrow>prefix_by_length ps n. length (filter (\<lambda>c. p @ [c] \<notin> E) cs))"
  by (simp add: requeue_def length_concat comp_def)

lemma sum_by_length:
  assumes "distinct ps"
  shows "(\<Sum>n\<leftarrow>sorted_lengths ps. \<Sum>p\<leftarrow>prefix_by_length ps n. g p) = (\<Sum>p\<in>set ps. (g p :: nat))"
proof -
  have inner: "(\<Sum>p\<leftarrow>prefix_by_length ps n. g p) = (\<Sum>p\<in>{p. p \<in> set ps \<and> length p = n}. g p)" for n
  proof -
    have "distinct (prefix_by_length ps n)"
      using assms by (simp add: prefix_by_length_def)
    then have "(\<Sum>p\<leftarrow>prefix_by_length ps n. g p) = (\<Sum>p\<in>set (prefix_by_length ps n). g p)"
      by (rule sum_list_distinct_conv_sum_set)
    also have "set (prefix_by_length ps n) = {p. p \<in> set ps \<and> length p = n}"
      by (auto simp: prefix_by_length_def)
    finally show ?thesis .
  qed
  have "distinct (sorted_lengths ps)"
    by (simp add: sorted_lengths_def)
  then have "(\<Sum>n\<leftarrow>sorted_lengths ps. \<Sum>p\<leftarrow>prefix_by_length ps n. g p)
      = (\<Sum>n\<in>set (sorted_lengths ps). \<Sum>p\<leftarrow>prefix_by_length ps n. g p)"
    by (rule sum_list_distinct_conv_sum_set)
  also have "\<dots> = (\<Sum>n\<in>length ` set ps. \<Sum>p\<in>{p. p \<in> set ps \<and> length p = n}. g p)"
    by (simp add: inner sorted_lengths_def)
  also have "\<dots> = (\<Sum>p\<in>set ps. g p)"
    by (rule sum.group) simp_all
  finally show ?thesis .
qed

lemma card_extensions:
  assumes "finite E" and "distinct cs"
  shows "card {(p, c). p \<in> E \<and> c \<in> set cs \<and> p @ [c] \<notin> E}
       = (\<Sum>p\<in>E. length (filter (\<lambda>c. p @ [c] \<notin> E) cs))"
proof -
  have "{(p, c). p \<in> E \<and> c \<in> set cs \<and> p @ [c] \<notin> E}
      = (SIGMA p:E. set (filter (\<lambda>c. p @ [c] \<notin> E) cs))"
    by auto
  moreover have "card (SIGMA p:E. set (filter (\<lambda>c. p @ [c] \<notin> E) cs))
      = (\<Sum>p\<in>E. card (set (filter (\<lambda>c. p @ [c] \<notin> E) cs)))"
    using assms(1) by (intro card_SigmaI) simp_all
  moreover have "card (set (filter (\<lambda>c. p @ [c] \<notin> E) cs)) = length (filter (\<lambda>c. p @ [c] \<notin> E) cs)" for p
    using assms(2) by (intro distinct_card distinct_filter)
  ultimately show ?thesis by (simp only:)
qed

lemma length_requeue_card:
  assumes "set ps = E" and "distinct ps" and "distinct cs"
  shows "length (requeue cs E ps) = card {(p, c). p \<in> E \<and> c \<in> set cs \<and> p @ [c] \<notin> E}"
proof -
  have "finite E" using assms(1) by auto
  then show ?thesis
    using assms by (simp add: length_requeue sum_by_length card_extensions)
qed

lemma distinct_charset: "distinct (digits @ ascii_lowercase)"
  by (simp add: digits_def ascii_lowercase_def)

lemma distinct_full_charset: "distinct ((digits @ ascii_lowercase) @ punctuation_used)"
  by (simp add: digits_def ascii_lowercase_def punctuation_used_def)

lemma enumerates_service: "finite S \<Longrightarrow> enumerates (service os) S"
  by (simp add: enumerates_def service_def)

text \<open>
  What a load does after a successful save, for any order in which the sets are
  listed: the newly constructed extractor has the names and the explored prefixes that
  were saved, and its frontier has as many items as there are pairs of an explored
  prefix and a character of \<open>charset\<close> (the digits and lowercase letters only, line 500)
  whose extension is not explored.
\<close>

lemma load_after_save:
  assumes "fst (save_checkpoint w ok now s)"
    and "enumerates w (discovered_names s)"
    and "enumerates w (explored_prefixes s)"
    and "enumerates w' (explored_prefixes s)"
  shows "fst (load_checkpoint w'
                (init m d ci now' (checkpoint_file (snd (save_checkpoint w ok now s)))))
       \<and> discovered_names (snd (load_checkpoint w'
                (init m d ci now' (checkpoint_file (snd (save_checkpoint w ok now s))))))
           = discovered_names s
       \<and> explored_prefixes (snd (load_checkpoint w'
                (init m d ci now' (checkpoint_file (snd (save_checkpoint w ok now s))))))
           = explored_prefixes s
       \<and> length (prefix_queue (snd (load_checkpoint w'
                (init m d ci now' (checkpoint_file (snd (save_checkpoint w ok now s)))))))
           = card {(p, c). p \<in> explored_prefixes s \<and> c \<in> set (digits @ ascii_lowercase)
                     \<and> p @ [c] \<notin> explored_prefixes s}"
proof -
  from assms(1) have ok
    by (auto simp: save_checkpoint_def split: if_splits)
  have n: "length (requeue (digits @ ascii_lowercase) (explored_prefixes s)
                     (listing w' (explored_prefixes s)))
      = card {(p, c). p \<in> explored_prefixes s \<and> c \<in> set (digits @ ascii_lowercase)
                \<and> p @ [c] \<notin> explored_prefixes s}"
    using assms(4) by (intro length_requeue_card distinct_charset) (simp_all add: enumerates_def)
  show ?thesis
    using assms(2,3) n \<open>ok\<close>
    by (simp add: save_checkpoint_def load_checkpoint_def init_def Let_def enumerates_def)
qed

text \<open>
  Claim C3, on an input where the code departs from it. The claim: saving a checkpoint
  and then loading it reproduces DiscoveredNames and ExploredSet, and the reconstructed
  frontier has as many items as there are pairs of an explored prefix and a charset
  character whose extension is not in ExploredSet. The charset of the crawl holds the
  punctuation: the fresh start seeds it (lines 217-222) and both branches of the
  expansion go through \<open>full_charset\<close> (lines 373 and 386). The load goes through
  \<open>charset\<close> only. With the names \<open>ab\<close>, \<open>b\<close> and the explored prefixes \<open>a\<close>, \<open>a0\<close>
  saved: the load succeeds and reproduces both sets; there are 129 pairs of an explored
  prefix and a character of the full charset whose extension is not explored; the
  frontier has 71 items, and \<open>a!\<close> is not among them.
\<close>

theorem checkpoint_frontier_without_punctuation:
  "fst (load_checkpoint (service [OtherException])
        (init 100 1 200 9 (checkpoint_file (snd (save_checkpoint (service [OtherException]) True 7
           ((init 100 1 200 0 None)
              \<lparr> discovered_names := {''ab'', ''b''}, explored_prefixes := {''a'', ''a0''} \<rparr>))))))
   \<and> discovered_names (snd (load_checkpoint (service [OtherException])
        (init 100 1 200 9 (checkpoint_file (snd (save_checkpoint (service [OtherException]) True 7
           ((init 100 1 200 0 None)
              \<lparr> discovered_names := {''ab'', ''b''}, explored_prefixes := {''a'', ''a0''} \<rparr>)))))))
       = {''ab'', ''b''}
   \<and> explored_prefixes (snd (load_checkpoint (service [OtherException])
        (init 100 1 200 9 (checkpoint_file (snd (save_checkpoint (service [OtherException]) True 7
           ((init 100 1 200 0 None)
              \<lparr> discovered_names := {''ab'', ''b''}, explored_prefixes := {''a'', ''a0''} \<rparr>)))))))
       = {''a'', ''a0''}
   \<and> full_charset (snd (load_checkpoint (service [OtherException])
        (init 100 1 200 9 (checkpoint_file (snd (save_checkpoint (service [OtherException]) True 7
           ((init 100 1 200 0 None)
              \<lparr> discovered_names := {''ab'', ''b''}, explored_prefixes := {''a'', ''a0''} \<rparr>)))))))
       = (digits @ ascii_lowercase) @ punctuation_used
   \<and> card {(p, c). p \<in> {''a'', ''a0''} \<and> c \<in> set ((digits @ ascii_lowercase) @ punctuation_used)
               \<and> p @ [c] \<notin> {''a'', ''a0''}} = 129
   \<and> length (prefix_queue (snd (load_checkpoint (service [OtherException])
        (init 100 1 200 9 (checkpoint_file (snd (save_checkpoint (service [OtherException]) True 7
           ((init 100 1 200 0 None)
              \<lparr> discovered_names := {''ab'', ''b''}, explored_prefixes := {''a'', ''a0''} \<rparr>))))))))
       = 71
   \<and> ''a!'' \<notin> snd ` set (prefix_queue (snd (load_checkpoint (service [OtherException])
        (init 100 1 200 9 (checkpoint_file (snd (save_checkpoint (service [OtherException]) True 7
           ((init 100 1 200 0 None)
              \<lparr> discovered_names := {''ab'', ''b''}, explored_prefixes := {''a'', ''a0''} \<rparr>))))))))"
proof -
  let ?s = "(init 100 1 200 0 None)
            \<lparr> discovered_names := {''ab'', ''b''}, explored_prefixes := {''a'', ''a0''} \<rparr>"
  have a: "fst (save_checkpoint (service [OtherException]) True 7 ?s)"
    by (simp add: save_checkpoint_def)
  have b: "enumerates (service [OtherException]) (discovered_names ?s)"
    by (simp add: enumerates_service)
  have c: "enumerates (service [OtherException]) (explored_prefixes ?s)"
    by (simp add: enumerates_service)
  have sets: "discovered_names (snd (load_checkpoint (service [OtherException])
        (init 100 1 200 9 (checkpoint_file (snd (save_checkpoint (service [OtherException]) True 7 ?s))))))
       = {''ab'', ''b''}"
    using load_after_save [OF a b c c, of 100 1 200 9] by simp
  have pairs: "card {(p, c). p \<in> {''a'', ''a0''} \<and> c \<in> set ((digits @ ascii_lowercase) @ punctuation_used)
               \<and> p @ [c] \<notin> {''a'', ''a0''}} = 129"
    using card_extensions [of "{''a'', ''a0''}" "(digits @ ascii_lowercase) @ punctuation_used"]
      distinct_full_charset
    by (simp add: digits_def ascii_lowercase_def punctuation_used_def)
  show ?thesis
    using pairs sets
    by (simp add: save_checkpoint_def load_checkpoint_def service_def init_def Let_def
          requeue_def sorted_lengths_def prefix_by_length_def digits_def ascii_lowercase_def
          image_iff)
qed

end
